theory Spec2Isabelle
  imports Complex_Main "HOL-Library.Sublist"
begin

unbundle bit_operations_syntax

section \<open>JavaScript primitives used by the geohash and distance code\<close>

text \<open>
  In the geohash functions a JavaScript number is modelled as a \<open>real\<close> where the
  source bisects the box and compares a coordinate with a midpoint, and as an \<open>int\<close>
  where it counts or builds the five-bit symbol value. The distance functions have the
  arithmetic of the numbers as a parameter, see their section.
  The bitwise operators of JavaScript first convert their operands to a signed
  32-bit integer; the conversion is written out with \<open>signed_take_bit\<close>.
\<close>

definition ToInt32 :: "int \<Rightarrow> int" where
  "ToInt32 x = signed_take_bit 31 x"

text \<open>\<^verbatim>\<open>x << n\<close>\<close>

definition js_shl :: "int \<Rightarrow> nat \<Rightarrow> int" where
  "js_shl x n = ToInt32 (push_bit (n mod 32) (ToInt32 x))"

text \<open>\<^verbatim>\<open>x >> n\<close>\<close>

definition js_sar :: "int \<Rightarrow> nat \<Rightarrow> int" where
  "js_sar x n = drop_bit (n mod 32) (ToInt32 x)"

text \<open>\<^verbatim>\<open>x & y\<close>\<close>

definition js_and :: "int \<Rightarrow> int \<Rightarrow> int" where
  "js_and x y = ToInt32 x AND ToInt32 y"

text \<open>\<^verbatim>\<open>s.charAt(i)\<close>: the empty string when the index is out of range.\<close>

definition charAt :: "string \<Rightarrow> int \<Rightarrow> string" where
  "charAt s i = (if 0 \<le> i \<and> i < int (length s) then [s ! nat i] else [])"

text \<open>\<^verbatim>\<open>throw new Error(message)\<close>\<close>

datatype error = Error string

section \<open>The alphabet\<close>

definition BASE32 :: string where
  "BASE32 = ''0123456789bcdefghjkmnpqrstuvwxyz''"

text \<open>
  \<^verbatim>\<open>Object.fromEntries([...BASE32].map((ch, i) => [ch, i]))\<close>: the entries are
  stored one after the other, a later entry overwriting an earlier one with the same key.
\<close>

definition CHAR_MAP :: "char \<rightharpoonup> int" where
  "CHAR_MAP =
     fold (\<lambda>(ch, i) m. m(ch \<mapsto> i)) (zip BASE32 (map int [0..<length BASE32])) Map.empty"

section \<open>The locals of the two geohash functions\<close>

text \<open>
  \<open>decodeGeohashCenter\<close> works on \<open>evenBit\<close> and the four bounds of the box;
  \<open>encodeGeohash\<close> has the same five locals and \<open>idx\<close>, \<open>bit\<close> and \<open>geohash\<close>.
\<close>

record cursor =
  evenBit :: bool
  latMin :: real
  latMax :: real
  lonMin :: real
  lonMax :: real

record enc_state = cursor +
  idx :: int
  bit :: int
  geohash :: string

record center =
  lat :: real
  lon :: real

section \<open>decodeGeohashCenter\<close>

text \<open>The body of the loop over \<open>mask\<close>.\<close>

definition decode_bit :: "int \<Rightarrow> int \<Rightarrow> cursor \<Rightarrow> cursor" where
  "decode_bit cd msk s =
     (let s1 =
        (if evenBit s then
           (let mid = (lonMin s + lonMax s) / 2 in
            if js_and cd msk \<noteq> 0 then s\<lparr>lonMin := mid\<rparr> else s\<lparr>lonMax := mid\<rparr>)
         else
           (let mid = (latMin s + latMax s) / 2 in
            if js_and cd msk \<noteq> 0 then s\<lparr>latMin := mid\<rparr> else s\<lparr>latMax := mid\<rparr>))
      in s1\<lparr>evenBit := \<not> evenBit s1\<rparr>)"

lemma js_sar_less: "1 \<le> m \<Longrightarrow> js_sar m 1 < m"
proof -
  assume m: "1 \<le> m"
  have "ToInt32 m \<le> m"
    using m by (simp add: ToInt32_def signed_take_bit_int_less_eq_self_iff)
  then have "ToInt32 m div 2 < m"
    using m by linarith
  then show ?thesis
    by (simp add: js_sar_def drop_bit_eq_div)
qed

text \<open>
  \<^verbatim>\<open>for (let mask = 16; mask >= 1; mask >>= 1) { ... }\<close>, from any value of
  \<open>mask\<close> (written \<open>msk\<close>).
\<close>

function mask_loop :: "int \<Rightarrow> int \<Rightarrow> cursor \<Rightarrow> cursor" where
  "mask_loop cd msk s =
     (if msk \<ge> 1 then mask_loop cd (js_sar msk 1) (decode_bit cd msk s) else s)"
  by pat_completeness auto
termination
proof (relation "measure (\<lambda>(cd, msk, s). nat msk)")
  show "wf (measure (\<lambda>(cd, msk, s). nat msk))"
    by simp
next
  fix cd msk :: int and s :: cursor
  assume "1 \<le> msk"
  then show "((cd, js_sar msk 1, decode_bit cd msk s), (cd, msk, s))
      \<in> measure (\<lambda>(cd, msk, s). nat msk)"
    using js_sar_less [of msk] by simp
qed

declare mask_loop.simps [simp del]

text \<open>\<^verbatim>\<open>for (const ch of hash) { ... }\<close>; the \<open>throw\<close> ends the call.\<close>

fun decode_chars :: "string \<Rightarrow> cursor \<Rightarrow> error + cursor" where
  "decode_chars [] s = Inr s"
| "decode_chars (ch # rest) s =
     (case CHAR_MAP ch of
        None \<Rightarrow> Inl (Error (''Invalid geohash character: '' @ [ch]))
      | Some cd \<Rightarrow> decode_chars rest (mask_loop cd 16 s))"

definition whole_earth :: cursor where
  "whole_earth = \<lparr>evenBit = True, latMin = - 90, latMax = 90, lonMin = - 180, lonMax = 180\<rparr>"

definition decodeGeohashCenter :: "string \<Rightarrow> error + center" where
  "decodeGeohashCenter hash =
     (case decode_chars hash whole_earth of
        Inl e \<Rightarrow> Inl e
      | Inr s \<Rightarrow> Inr \<lparr>lat = (latMin s + latMax s) / 2, lon = (lonMin s + lonMax s) / 2\<rparr>)"

section \<open>encodeGeohash\<close>

text \<open>The body of the \<open>while\<close> loop, on the locals of the function.\<close>

definition encode_body :: "real \<Rightarrow> real \<Rightarrow> enc_state \<Rightarrow> enc_state" where
  "encode_body latitude longitude s =
     (let s1 =
        (if evenBit s then
           (let mid = (lonMin s + lonMax s) / 2 in
            if longitude > mid then s\<lparr>idx := js_shl (idx s) 1 + 1, lonMin := mid\<rparr>
            else s\<lparr>idx := js_shl (idx s) 1, lonMax := mid\<rparr>)
         else
           (let mid = (latMin s + latMax s) / 2 in
            if latitude > mid then s\<lparr>idx := js_shl (idx s) 1 + 1, latMin := mid\<rparr>
            else s\<lparr>idx := js_shl (idx s) 1, latMax := mid\<rparr>));
        s2 = s1\<lparr>evenBit := \<not> evenBit s1\<rparr>;
        s3 = s2\<lparr>bit := bit s2 + 1\<rparr>
      in if bit s3 = 5
         then s3\<lparr>geohash := geohash s3 @ charAt BASE32 (idx s3), bit := 0, idx := 0\<rparr>
         else s3)"

text \<open>
  \<^verbatim>\<open>while (geohash.length < precision) { ... }\<close>, from any values of the locals.
  From locals with \<open>bit\<close> above 4 the counter never meets 5 again and the loop does
  not end, so the loop is a partial function: \<open>None\<close> is "does not return".
\<close>

partial_function (option) encode_loop ::
  "real \<Rightarrow> real \<Rightarrow> int \<Rightarrow> enc_state \<Rightarrow> enc_state option" where
  "encode_loop latitude longitude precision s =
     (if int (length (geohash s)) < precision
      then encode_loop latitude longitude precision (encode_body latitude longitude s)
      else Some s)"

declare encode_loop.simps [code]

definition encode_init :: enc_state where
  "encode_init =
     \<lparr>evenBit = True, latMin = - 90, latMax = 90, lonMin = - 180, lonMax = 180,
      idx = 0, bit = 0, geohash = []\<rparr>"

text \<open>The locals when the loop has ended; \<open>encodeGeohash\<close> returns \<open>geohash\<close> of them.\<close>

definition encode_final :: "real \<Rightarrow> real \<Rightarrow> int \<Rightarrow> enc_state option" where
  "encode_final latitude longitude precision =
     encode_loop latitude longitude precision encode_init"

definition encodeGeohash :: "real \<Rightarrow> real \<Rightarrow> int \<Rightarrow> string option" where
  "encodeGeohash latitude longitude precision =
     map_option geohash (encode_final latitude longitude precision)"

section \<open>haversineMeters and distanceMeters\<close>

text \<open>
  The two functions compute with JavaScript numbers: IEEE doubles, rounded after every
  operation, with NaN and the infinities among the values, and with \<^verbatim>\<open>Math.sin\<close>,
  \<^verbatim>\<open>Math.cos\<close>, \<^verbatim>\<open>Math.sqrt\<close> and \<^verbatim>\<open>Math.atan2\<close> as the engine implements them.
  That arithmetic is a parameter of the model: \<open>'n\<close> is the type of the numbers and
  a \<open>number_ops\<close> gives the numeric literals, \<^verbatim>\<open>Math.PI\<close>, the operators
  \<^verbatim>\<open>+ - * / **\<close> and the four library functions. What is proved for every
  \<open>number_ops\<close> holds for the doubles of any engine.
\<close>

record 'n number_ops =
  js_lit :: "int \<Rightarrow> 'n"
  js_PI :: 'n
  js_add :: "'n \<Rightarrow> 'n \<Rightarrow> 'n"
  js_sub :: "'n \<Rightarrow> 'n \<Rightarrow> 'n"
  js_mul :: "'n \<Rightarrow> 'n \<Rightarrow> 'n"
  js_div :: "'n \<Rightarrow> 'n \<Rightarrow> 'n"
  js_pow :: "'n \<Rightarrow> 'n \<Rightarrow> 'n"
  js_sin :: "'n \<Rightarrow> 'n"
  js_cos :: "'n \<Rightarrow> 'n"
  js_sqrt :: "'n \<Rightarrow> 'n"
  js_atan2 :: "'n \<Rightarrow> 'n \<Rightarrow> 'n"

text \<open>\<^verbatim>\<open>const toRad = v => (v * Math.PI) / 180\<close>\<close>

definition toRad_num :: "'n number_ops \<Rightarrow> 'n \<Rightarrow> 'n" where
  "toRad_num M v = js_div M (js_mul M v (js_PI M)) (js_lit M 180)"

text \<open>
  \<open>haversineMeters\<close> of the geohash screen. \<^verbatim>\<open>**\<close> binds tighter than \<^verbatim>\<open>*\<close>, and
  the product of the two cosines is formed first.
\<close>

definition haversineMeters_num :: "'n number_ops \<Rightarrow> 'n \<Rightarrow> 'n \<Rightarrow> 'n \<Rightarrow> 'n \<Rightarrow> 'n" where
  "haversineMeters_num M lat1 lon1 lat2 lon2 =
     (let R = js_lit M 6371000;
          dLat = toRad_num M (js_sub M lat2 lat1);
          dLon = toRad_num M (js_sub M lon2 lon1);
          a =
            js_add M
              (js_pow M (js_sin M (js_div M dLat (js_lit M 2))) (js_lit M 2))
              (js_mul M
                (js_mul M (js_cos M (toRad_num M lat1)) (js_cos M (toRad_num M lat2)))
                (js_pow M (js_sin M (js_div M dLon (js_lit M 2))) (js_lit M 2)));
          c = js_mul M (js_lit M 2)
                (js_atan2 M (js_sqrt M a) (js_sqrt M (js_sub M (js_lit M 1) a)))
      in js_mul M R c)"

text \<open>The other screen has the same function under the name \<open>distanceMeters\<close>.\<close>

definition distanceMeters_num :: "'n number_ops \<Rightarrow> 'n \<Rightarrow> 'n \<Rightarrow> 'n \<Rightarrow> 'n \<Rightarrow> 'n" where
  "distanceMeters_num M lat1 lon1 lat2 lon2 =
     (let R = js_lit M 6371000;
          dLat = toRad_num M (js_sub M lat2 lat1);
          dLon = toRad_num M (js_sub M lon2 lon1);
          a =
            js_add M
              (js_pow M (js_sin M (js_div M dLat (js_lit M 2))) (js_lit M 2))
              (js_mul M
                (js_mul M (js_cos M (toRad_num M lat1)) (js_cos M (toRad_num M lat2)))
                (js_pow M (js_sin M (js_div M dLon (js_lit M 2))) (js_lit M 2)));
          c = js_mul M (js_lit M 2)
                (js_atan2 M (js_sqrt M a) (js_sqrt M (js_sub M (js_lit M 1) a)))
      in js_mul M R c)"

text \<open>
  The same function in exact arithmetic, on real numbers with no rounding: \<open>None\<close>
  stands for NaN, which \<^verbatim>\<open>Math.sqrt\<close> gives on a negative argument.
\<close>

definition toRad :: "real \<Rightarrow> real" where
  "toRad v = (v * pi) / 180"

text \<open>\<^verbatim>\<open>Math.sqrt\<close>: the result is NaN on a negative argument, modelled as \<open>None\<close>.\<close>

definition Math_sqrt :: "real \<Rightarrow> real option" where
  "Math_sqrt x = (if x < 0 then None else Some (sqrt x))"

text \<open>\<^verbatim>\<open>Math.atan2(y, x)\<close> on real numbers.\<close>

definition Math_atan2 :: "real \<Rightarrow> real \<Rightarrow> real" where
  "Math_atan2 y x =
     (if x > 0 then arctan (y / x)
      else if x < 0 then (if y \<ge> 0 then arctan (y / x) + pi else arctan (y / x) - pi)
      else if y > 0 then pi / 2
      else if y < 0 then - (pi / 2)
      else 0)"

definition haversineMeters :: "real \<Rightarrow> real \<Rightarrow> real \<Rightarrow> real \<Rightarrow> real option" where
  "haversineMeters lat1 lon1 lat2 lon2 =
     (let R = 6371000;
          dLat = toRad (lat2 - lat1);
          dLon = toRad (lon2 - lon1);
          a = sin (dLat / 2) ^ 2 +
              cos (toRad lat1) * cos (toRad lat2) * sin (dLon / 2) ^ 2
      in case Math_sqrt a of
           None \<Rightarrow> None
         | Some sa \<Rightarrow>
             (case Math_sqrt (1 - a) of
                None \<Rightarrow> None
              | Some sb \<Rightarrow> Some (R * (2 * Math_atan2 sa sb))))"

text \<open>
  Exact arithmetic as a \<open>number_ops\<close>, on the operations the function uses (it
  divides by 180 and by 2 only and raises to the power 2 only).
\<close>

definition lift2 :: "(real \<Rightarrow> real \<Rightarrow> real) \<Rightarrow> real option \<Rightarrow> real option \<Rightarrow> real option" where
  "lift2 f x y = (case x of None \<Rightarrow> None | Some u \<Rightarrow> (case y of None \<Rightarrow> None | Some v \<Rightarrow> Some (f u v)))"

definition exact_ops :: "real option number_ops" where
  "exact_ops =
     \<lparr>js_lit = (\<lambda>k. Some (of_int k)),
      js_PI = Some pi,
      js_add = lift2 (+),
      js_sub = lift2 (-),
      js_mul = lift2 (*),
      js_div = lift2 (/),
      js_pow = lift2 (\<lambda>x y. x ^ nat \<lfloor>y\<rfloor>),
      js_sin = map_option sin,
      js_cos = map_option cos,
      js_sqrt = (\<lambda>x. case x of None \<Rightarrow> None | Some u \<Rightarrow> Math_sqrt u),
      js_atan2 = lift2 Math_atan2\<rparr>"

section \<open>Vocabulary of the specification\<close>

text \<open>A coordinate of the data model: latitude in [-90, 90], longitude in [-180, 180].\<close>

definition valid_coordinate :: "real \<Rightarrow> real \<Rightarrow> bool" where
  "valid_coordinate latitude longitude \<longleftrightarrow>
     - 90 \<le> latitude \<and> latitude \<le> 90 \<and> - 180 \<le> longitude \<and> longitude \<le> 180"

text \<open>
  The distance formula in the words of the specification, over the same arithmetic:
  the differences converted to radians, \<open>a\<close> as the squared sine of half the latitude
  difference plus the product of the two cosines and the squared sine of half the
  longitude difference, \<open>c\<close> as twice the atan2 of the square roots of \<open>a\<close> and
  \<open>1 - a\<close>, and the radius 6,371,000 times \<open>c\<close>.
\<close>

definition radians :: "'n number_ops \<Rightarrow> 'n \<Rightarrow> 'n" where
  "radians M x = js_div M (js_mul M x (js_PI M)) (js_lit M 180)"

definition half :: "'n number_ops \<Rightarrow> 'n \<Rightarrow> 'n" where
  "half M x = js_div M x (js_lit M 2)"

definition sin_squared :: "'n number_ops \<Rightarrow> 'n \<Rightarrow> 'n" where
  "sin_squared M x = js_pow M (js_sin M x) (js_lit M 2)"

definition haversine_formula :: "'n number_ops \<Rightarrow> 'n \<Rightarrow> 'n \<Rightarrow> 'n \<Rightarrow> 'n \<Rightarrow> 'n" where
  "haversine_formula M lat1 lon1 lat2 lon2 =
     (let dlat = radians M (js_sub M lat2 lat1);
          dlon = radians M (js_sub M lon2 lon1);
          a = js_add M (sin_squared M (half M dlat))
                (js_mul M (js_mul M (js_cos M (radians M lat1)) (js_cos M (radians M lat2)))
                   (sin_squared M (half M dlon)));
          c = js_mul M (js_lit M 2)
                (js_atan2 M (js_sqrt M a) (js_sqrt M (js_sub M (js_lit M 1) a)))
      in js_mul M (js_lit M 6371000) c)"

section \<open>Auxiliary notions for the geohash proofs\<close>

text \<open>
  Both loops do the same thing to the box once the bit is known: \<open>narrow b\<close> moves
  the lower bound of the active axis up to the midpoint when \<open>b\<close> holds and the upper
  bound down otherwise, and passes to the other axis. \<open>above_mid\<close> is the test of the
  encoder for its coordinate.
\<close>

definition above_mid :: "real \<Rightarrow> real \<Rightarrow> 'a cursor_scheme \<Rightarrow> bool" where
  "above_mid latitude longitude s =
     (if evenBit s then longitude > (lonMin s + lonMax s) / 2
      else latitude > (latMin s + latMax s) / 2)"

definition narrow :: "bool \<Rightarrow> 'a cursor_scheme \<Rightarrow> 'a cursor_scheme" where
  "narrow b s =
     (if evenBit s then
        (if b then s\<lparr>lonMin := (lonMin s + lonMax s) / 2, evenBit := False\<rparr>
         else s\<lparr>lonMax := (lonMin s + lonMax s) / 2, evenBit := False\<rparr>)
      else
        (if b then s\<lparr>latMin := (latMin s + latMax s) / 2, evenBit := True\<rparr>
         else s\<lparr>latMax := (latMin s + latMax s) / 2, evenBit := True\<rparr>))"

fun enc_bits :: "real \<Rightarrow> real \<Rightarrow> nat \<Rightarrow> cursor \<Rightarrow> bool list" where
  "enc_bits latitude longitude 0 c = []"
| "enc_bits latitude longitude (Suc n) c =
     above_mid latitude longitude c #
     enc_bits latitude longitude n (narrow (above_mid latitude longitude c) c)"

definition bits_val :: "int \<Rightarrow> bool list \<Rightarrow> int" where
  "bits_val i bs = foldl (\<lambda>a b. 2 * a + (if b then 1 else 0)) i bs"

definition box_ok :: "'a cursor_scheme \<Rightarrow> bool" where
  "box_ok s \<longleftrightarrow> latMin s \<le> latMax s \<and> lonMin s \<le> lonMax s"

text \<open>One entry stored by \<open>Object.fromEntries\<close>.\<close>

definition store_entry :: "'k \<times> 'v \<Rightarrow> ('k \<rightharpoonup> 'v) \<Rightarrow> ('k \<rightharpoonup> 'v)" where
  "store_entry = (\<lambda>(k, v) m. m(k \<mapsto> v))"

text \<open>The value of \<open>idx\<close> after the shift and the possible increment of one step.\<close>

definition next_idx :: "real \<Rightarrow> real \<Rightarrow> enc_state \<Rightarrow> int" where
  "next_idx latitude longitude s = 2 * idx s + (if above_mid latitude longitude s then 1 else 0)"

section \<open>Facts about the distance\<close>

text \<open>In exact arithmetic the parametrised function is the function on real numbers.\<close>

lemma haversineMeters_exact:
  "haversineMeters_num exact_ops (Some lat1) (Some lon1) (Some lat2) (Some lon2) =
     haversineMeters lat1 lon1 lat2 lon2"
  by (simp add: haversineMeters_num_def haversineMeters_def toRad_num_def toRad_def exact_ops_def
      lift2_def Math_sqrt_def Let_def)

section \<open>Facts about the alphabet\<close>

lemma fold_store_entry:
  "distinct (map fst xs) \<Longrightarrow> fold store_entry xs m = m ++ map_of xs"
proof (induction xs arbitrary: m)
  case Nil
  then show ?case by simp
next
  case (Cons kv xs)
  obtain k v where kv: "kv = (k, v)" by (cases kv)
  from Cons.prems kv have k: "map_of xs k = None" and d: "distinct (map fst xs)"
    by (simp_all add: map_of_eq_None_iff)
  have "fold store_entry (kv # xs) m = fold store_entry xs (m(k \<mapsto> v))"
    by (simp add: kv store_entry_def)
  also have "\<dots> = m(k \<mapsto> v) ++ map_of xs"
    by (rule Cons.IH [OF d])
  also have "\<dots> = m ++ (map_of xs)(k \<mapsto> v)"
    using k by (auto simp: fun_eq_iff map_add_def split: option.splits)
  also have "\<dots> = m ++ map_of (kv # xs)"
    by (simp only: kv map_of.simps fst_conv snd_conv)
  finally show ?case .
qed

lemma distinct_BASE32: "distinct BASE32"
  by (simp add: BASE32_def)

lemma length_BASE32: "length BASE32 = 32"
  by (simp add: BASE32_def)

lemma CHAR_MAP_map_of: "CHAR_MAP = map_of (zip BASE32 (map int [0..<32]))"
proof -
  have "distinct (map fst (zip BASE32 (map int [0..<32])))"
    using distinct_BASE32 by (simp add: length_BASE32)
  then show ?thesis
    by (simp add: CHAR_MAP_def store_entry_def [symmetric] fold_store_entry length_BASE32)
qed

lemma CHAR_MAP_None: "CHAR_MAP ch = None \<longleftrightarrow> ch \<notin> set BASE32"
proof -
  have "ch \<in> set BASE32 \<longleftrightarrow> (\<exists>y. CHAR_MAP ch = Some y)"
    unfolding CHAR_MAP_map_of by (rule map_of_zip_is_Some) (simp add: length_BASE32)
  then show ?thesis by auto
qed

lemma CHAR_MAP_nth: "i < 32 \<Longrightarrow> CHAR_MAP (BASE32 ! i) = Some (int i)"
proof -
  assume i: "i < 32"
  have "map_of (zip BASE32 (map int [0..<32])) (BASE32 ! i) = Some (map int [0..<32] ! i)"
    by (rule map_of_zip_nth) (use i in \<open>simp_all add: length_BASE32 distinct_BASE32\<close>)
  then show ?thesis
    using i by (simp add: CHAR_MAP_map_of del: upt_Suc)
qed

lemma CHAR_MAP_Some:
  assumes "CHAR_MAP ch = Some v"
  shows "0 \<le> v \<and> v < 32"
proof -
  from assms have "(ch, v) \<in> set (zip BASE32 (map int [0..<32]))"
    unfolding CHAR_MAP_map_of by (rule map_of_SomeD)
  then have "v \<in> set (map int [0..<32])"
    by (rule set_zip_rightD)
  then show ?thesis by auto
qed

section \<open>Facts about the decoder\<close>

lemma decode_bit_narrow: "decode_bit cd msk s = narrow (js_and cd msk \<noteq> 0) s"
  by (simp add: decode_bit_def narrow_def Let_def)

lemma mask_loop_16:
  "mask_loop cd 16 s =
     narrow (js_and cd 1 \<noteq> 0) (narrow (js_and cd 2 \<noteq> 0) (narrow (js_and cd 4 \<noteq> 0)
       (narrow (js_and cd 8 \<noteq> 0) (narrow (js_and cd 16 \<noteq> 0) s))))"
proof -
  have sar: "js_sar 16 (Suc 0) = 8" "js_sar 8 (Suc 0) = 4" "js_sar 4 (Suc 0) = 2"
    "js_sar 2 (Suc 0) = 1" "js_sar 1 (Suc 0) = 0"
    by (simp_all add: js_sar_def ToInt32_def)
  have "mask_loop cd 0 t = t" for t
    by (simp add: mask_loop.simps)
  then have "mask_loop cd 1 t = narrow (js_and cd 1 \<noteq> 0) t" for t
    by (subst mask_loop.simps) (simp add: sar decode_bit_narrow)
  then have "mask_loop cd 2 t = narrow (js_and cd 1 \<noteq> 0) (narrow (js_and cd 2 \<noteq> 0) t)" for t
    by (subst mask_loop.simps) (simp add: sar decode_bit_narrow)
  then have "mask_loop cd 4 t = narrow (js_and cd 1 \<noteq> 0) (narrow (js_and cd 2 \<noteq> 0)
      (narrow (js_and cd 4 \<noteq> 0) t))" for t
    by (subst mask_loop.simps) (simp add: sar decode_bit_narrow)
  then have "mask_loop cd 8 t = narrow (js_and cd 1 \<noteq> 0) (narrow (js_and cd 2 \<noteq> 0)
      (narrow (js_and cd 4 \<noteq> 0) (narrow (js_and cd 8 \<noteq> 0) t)))" for t
    by (subst mask_loop.simps) (simp add: sar decode_bit_narrow)
  then show ?thesis
    by (subst mask_loop.simps) (simp add: sar decode_bit_narrow)
qed

lemma js_and_bits:
  "js_and (bits_val 0 [b0, b1, b2, b3, b4]) 16 \<noteq> 0 \<longleftrightarrow> b0"
  "js_and (bits_val 0 [b0, b1, b2, b3, b4]) 8 \<noteq> 0 \<longleftrightarrow> b1"
  "js_and (bits_val 0 [b0, b1, b2, b3, b4]) 4 \<noteq> 0 \<longleftrightarrow> b2"
  "js_and (bits_val 0 [b0, b1, b2, b3, b4]) 2 \<noteq> 0 \<longleftrightarrow> b3"
  "js_and (bits_val 0 [b0, b1, b2, b3, b4]) 1 \<noteq> 0 \<longleftrightarrow> b4"
  by (cases b0; cases b1; cases b2; cases b3; cases b4; simp add: bits_val_def js_and_def ToInt32_def)+

lemma mask_loop_bits:
  "mask_loop (bits_val 0 [b0, b1, b2, b3, b4]) 16 s =
     narrow b4 (narrow b3 (narrow b2 (narrow b1 (narrow b0 s))))"
  by (simp only: mask_loop_16 js_and_bits)

lemma decode_chars_append:
  "decode_chars (xs @ ys) s =
     (case decode_chars xs s of Inl e \<Rightarrow> Inl e | Inr s' \<Rightarrow> decode_chars ys s')"
  by (induction xs arbitrary: s) (simp_all split: option.splits)

lemma decode_chars_find:
  "case find (\<lambda>ch. ch \<notin> set BASE32) hash of
     Some ch \<Rightarrow> decode_chars hash s = Inl (Error (''Invalid geohash character: '' @ [ch]))
   | None \<Rightarrow> \<exists>s'. decode_chars hash s = Inr s'"
proof (induction hash arbitrary: s)
  case Nil
  then show ?case by simp
next
  case (Cons ch rest)
  show ?case
  proof (cases "ch \<in> set BASE32")
    case True
    then obtain cd where "CHAR_MAP ch = Some cd"
      using CHAR_MAP_None [of ch] by auto
    then show ?thesis
      using True Cons.IH [of "mask_loop cd 16 s"] by (simp split: option.splits)
  next
    case False
    then have "CHAR_MAP ch = None"
      by (simp add: CHAR_MAP_None)
    then show ?thesis
      using False by simp
  qed
qed

section \<open>Facts about the encoder\<close>

lemma js_shl_1: "0 \<le> x \<Longrightarrow> x < 2 ^ 30 \<Longrightarrow> js_shl x 1 = 2 * x"
proof -
  assume x: "0 \<le> x" "x < 2 ^ 30"
  have "ToInt32 x = x"
    using x by (simp add: ToInt32_def signed_take_bit_int_eq_self)
  moreover have "ToInt32 (x * 2) = x * 2"
    using x by (simp add: ToInt32_def signed_take_bit_int_eq_self)
  ultimately show ?thesis
    by (simp add: js_shl_def push_bit_eq_mult)
qed

lemma js_shl_Suc_0: "0 \<le> x \<Longrightarrow> x < 2 ^ 30 \<Longrightarrow> js_shl x (Suc 0) = 2 * x"
  using js_shl_1 [of x] by simp

lemma truncate_sel [simp]:
  "evenBit (cursor.truncate s) = evenBit s"
  "latMin (cursor.truncate s) = latMin s"
  "latMax (cursor.truncate s) = latMax s"
  "lonMin (cursor.truncate s) = lonMin s"
  "lonMax (cursor.truncate s) = lonMax s"
  by (simp_all add: cursor.truncate_def)

lemma above_mid_truncate:
  "above_mid latitude longitude (cursor.truncate s) = above_mid latitude longitude s"
  by (simp add: above_mid_def)

lemma truncate_narrow: "cursor.truncate (narrow b s) = narrow b (cursor.truncate s)"
  by (simp add: narrow_def cursor.truncate_def)

lemma encode_body_cursor:
  "cursor.truncate (encode_body latitude longitude s) =
     narrow (above_mid latitude longitude s) (cursor.truncate s)"
  by (simp add: encode_body_def above_mid_def narrow_def cursor.truncate_def Let_def)

lemma encode_body_mid:
  assumes "0 \<le> idx s" "idx s < 2 ^ 30" "bit s + 1 \<noteq> 5"
  shows "geohash (encode_body latitude longitude s) = geohash s"
    and "bit (encode_body latitude longitude s) = bit s + 1"
    and "idx (encode_body latitude longitude s) = next_idx latitude longitude s"
  using assms by (simp_all add: encode_body_def above_mid_def next_idx_def js_shl_Suc_0 Let_def)

lemma encode_body_emit:
  assumes "0 \<le> idx s" "idx s < 2 ^ 30" "bit s + 1 = 5"
  shows "geohash (encode_body latitude longitude s) =
           geohash s @ charAt BASE32 (next_idx latitude longitude s)"
    and "bit (encode_body latitude longitude s) = 0"
    and "idx (encode_body latitude longitude s) = 0"
  using assms by (simp_all add: encode_body_def above_mid_def next_idx_def js_shl_Suc_0 Let_def)

lemma bits_val_Cons: "bits_val i (b # bs) = bits_val (2 * i + (if b then 1 else 0)) bs"
  by (simp add: bits_val_def)

lemma steps_within_char:
  assumes "bit s = int k" and "k + n \<le> 4" and "0 \<le> idx s" and "idx s < 2 ^ k"
  shows "geohash ((encode_body la lo ^^ n) s) = geohash s \<and>
         bit ((encode_body la lo ^^ n) s) = int (k + n) \<and>
         idx ((encode_body la lo ^^ n) s) = bits_val (idx s) (enc_bits la lo n (cursor.truncate s)) \<and>
         cursor.truncate ((encode_body la lo ^^ n) s) =
           fold narrow (enc_bits la lo n (cursor.truncate s)) (cursor.truncate s) \<and>
         0 \<le> idx ((encode_body la lo ^^ n) s) \<and>
         idx ((encode_body la lo ^^ n) s) < 2 ^ (k + n)"
  using assms
proof (induction n arbitrary: s k)
  case 0
  then show ?case by (simp add: bits_val_def)
next
  case (Suc n)
  let ?t = "encode_body la lo s"
  from Suc.prems have k: "k \<le> 3" by simp
  then have "(2::int) ^ k \<le> 2 ^ 3"
    by (intro power_increasing) simp_all
  then have small: "idx s < 2 ^ 30"
    using Suc.prems(4) by simp
  have nz: "bit s + 1 \<noteq> 5"
    using Suc.prems(1) k by simp
  note mid = encode_body_mid [OF Suc.prems(3) small nz, of la lo]
  have t1: "bit ?t = int (Suc k)"
    using mid(2) Suc.prems(1) by simp
  have t2: "Suc k + n \<le> 4"
    using Suc.prems(2) by simp
  have t3: "0 \<le> idx ?t"
    using mid(3) Suc.prems(3) by (simp add: next_idx_def)
  have t4: "idx ?t < 2 ^ Suc k"
    using mid(3) Suc.prems(4) by (simp add: next_idx_def)
  have step: "(encode_body la lo ^^ Suc n) s = (encode_body la lo ^^ n) ?t"
    by (simp add: funpow_swap1)
  have bits: "enc_bits la lo (Suc n) (cursor.truncate s) =
      above_mid la lo s # enc_bits la lo n (cursor.truncate ?t)"
    by (simp add: above_mid_truncate encode_body_cursor)
  have val: "bits_val (idx s) (enc_bits la lo (Suc n) (cursor.truncate s)) =
      bits_val (idx ?t) (enc_bits la lo n (cursor.truncate ?t))"
    unfolding bits bits_val_Cons by (simp add: mid(3) next_idx_def)
  have box: "fold narrow (enc_bits la lo (Suc n) (cursor.truncate s)) (cursor.truncate s) =
      fold narrow (enc_bits la lo n (cursor.truncate ?t)) (cursor.truncate ?t)"
    unfolding bits by (simp add: encode_body_cursor)
  from Suc.IH [OF t1 t2 t3 t4] show ?case
    unfolding step val box by (simp add: mid(1))
qed

lemma enc_bits_4:
  "\<exists>b0 b1 b2 b3. enc_bits la lo 4 c = [b0, b1, b2, b3]"
  by (simp add: numeral_eq_Suc)

lemma bits_val_5_range: "0 \<le> bits_val 0 [b0, b1, b2, b3, b4] \<and> bits_val 0 [b0, b1, b2, b3, b4] < 32"
  by (simp add: bits_val_def)

lemma char_step:
  assumes "bit s = 0" and "idx s = 0"
  shows "\<exists>v. 0 \<le> v \<and> v < 32 \<and>
           geohash ((encode_body la lo ^^ 5) s) = geohash s @ [BASE32 ! nat v] \<and>
           bit ((encode_body la lo ^^ 5) s) = 0 \<and>
           idx ((encode_body la lo ^^ 5) s) = 0 \<and>
           cursor.truncate ((encode_body la lo ^^ 5) s) = mask_loop v 16 (cursor.truncate s)"
proof -
  let ?c = "cursor.truncate s"
  let ?s4 = "(encode_body la lo ^^ 4) s"
  let ?s5 = "(encode_body la lo ^^ 5) s"
  obtain b0 b1 b2 b3 where bs: "enc_bits la lo 4 ?c = [b0, b1, b2, b3]"
    using enc_bits_4 by blast
  have four: "geohash ?s4 = geohash s" "bit ?s4 = 4" "idx ?s4 = bits_val 0 [b0, b1, b2, b3]"
    "cursor.truncate ?s4 = fold narrow [b0, b1, b2, b3] ?c" "0 \<le> idx ?s4" "idx ?s4 < 2 ^ 4"
    using steps_within_char [where s = s and k = 0 and n = 4 and la = la and lo = lo] assms by (simp_all add: bs)
  define b4 where "b4 = above_mid la lo ?s4"
  define v where "v = bits_val 0 [b0, b1, b2, b3, b4]"
  have s5: "?s5 = encode_body la lo ?s4"
    by (simp add: numeral_eq_Suc)
  have small: "idx ?s4 < 2 ^ 30"
    using four(6) by simp
  have five: "bit ?s4 + 1 = 5"
    using four(2) by simp
  note emit = encode_body_emit [OF four(5) small five, of la lo]
  have nv: "next_idx la lo ?s4 = v"
    by (simp add: next_idx_def v_def b4_def four(3) bits_val_def)
  have range: "0 \<le> v" "v < 32"
    using bits_val_5_range [of b0 b1 b2 b3 b4] by (simp_all add: v_def)
  have "charAt BASE32 v = [BASE32 ! nat v]"
    using range by (simp add: charAt_def length_BASE32)
  then have g: "geohash ?s5 = geohash s @ [BASE32 ! nat v]"
    by (simp add: s5 emit(1) nv four(1))
  have "cursor.truncate ?s5 = narrow b4 (cursor.truncate ?s4)"
    by (simp add: s5 encode_body_cursor b4_def)
  also have "\<dots> = mask_loop v 16 ?c"
    by (simp add: four(4) v_def mask_loop_bits)
  finally have c: "cursor.truncate ?s5 = mask_loop v 16 ?c" .
  show ?thesis
    using range g c emit(2,3) s5 by auto
qed

lemma box_ok_narrow: "box_ok s \<Longrightarrow> box_ok (narrow b s)"
  by (auto simp: box_ok_def narrow_def)

lemma box_ok_truncate: "box_ok (cursor.truncate s) = box_ok s"
  by (simp add: box_ok_def)

lemma box_ok_steps: "box_ok s \<Longrightarrow> box_ok ((encode_body la lo ^^ n) s)"
proof (induction n)
  case 0
  then show ?case by simp
next
  case (Suc n)
  then have "box_ok (narrow (above_mid la lo ((encode_body la lo ^^ n) s))
      (cursor.truncate ((encode_body la lo ^^ n) s)))"
    by (simp add: box_ok_narrow box_ok_truncate)
  then show ?case
    by (simp add: encode_body_cursor [symmetric] box_ok_truncate)
qed

lemma truncate_encode_init: "cursor.truncate encode_init = whole_earth"
  by (simp add: encode_init_def whole_earth_def cursor.truncate_def)

lemma chars_done:
  "bit ((encode_body la lo ^^ (5 * m)) encode_init) = 0 \<and>
   idx ((encode_body la lo ^^ (5 * m)) encode_init) = 0 \<and>
   length (geohash ((encode_body la lo ^^ (5 * m)) encode_init)) = m \<and>
   set (geohash ((encode_body la lo ^^ (5 * m)) encode_init)) \<subseteq> set BASE32 \<and>
   decode_chars (geohash ((encode_body la lo ^^ (5 * m)) encode_init)) whole_earth =
     Inr (cursor.truncate ((encode_body la lo ^^ (5 * m)) encode_init))"
proof (induction m)
  case 0
  then show ?case
    by (simp add: truncate_encode_init) (simp add: encode_init_def)
next
  case (Suc m)
  let ?s = "(encode_body la lo ^^ (5 * m)) encode_init"
  have split: "(encode_body la lo ^^ (5 * Suc m)) encode_init = (encode_body la lo ^^ 5) ?s"
  proof -
    have "5 * Suc m = 5 + 5 * m" by simp
    then show ?thesis by (simp only: funpow_add comp_apply)
  qed
  from Suc.IH have b: "bit ?s = 0" and i: "idx ?s = 0" by simp_all
  from char_step [OF b i, of la lo] obtain v where v: "0 \<le> v" "v < 32"
    and g: "geohash ((encode_body la lo ^^ 5) ?s) = geohash ?s @ [BASE32 ! nat v]"
    and r: "bit ((encode_body la lo ^^ 5) ?s) = 0" "idx ((encode_body la lo ^^ 5) ?s) = 0"
    and c: "cursor.truncate ((encode_body la lo ^^ 5) ?s) = mask_loop v 16 (cursor.truncate ?s)"
    by blast
  have n: "nat v < 32" using v by simp
  have cm: "CHAR_MAP (BASE32 ! nat v) = Some v"
    using CHAR_MAP_nth [OF n] v by simp
  have mem: "BASE32 ! nat v \<in> set BASE32"
    using n by (simp add: length_BASE32)
  have dec: "decode_chars (geohash ?s @ [BASE32 ! nat v]) whole_earth =
      Inr (mask_loop v 16 (cursor.truncate ?s))"
    using Suc.IH by (simp add: decode_chars_append cm)
  show ?case
    unfolding split using Suc.IH r mem by (simp add: g c dec)
qed

lemma length_after_steps:
  "length (geohash ((encode_body la lo ^^ j) encode_init)) = j div 5"
proof -
  let ?s = "(encode_body la lo ^^ (5 * (j div 5))) encode_init"
  have "j = j mod 5 + 5 * (j div 5)" by simp
  then have "(encode_body la lo ^^ j) encode_init = (encode_body la lo ^^ (j mod 5)) ?s"
    by (metis funpow_add comp_apply)
  moreover have "geohash ((encode_body la lo ^^ (j mod 5)) ?s) = geohash ?s"
    using steps_within_char [where s = ?s and k = 0 and n = "j mod 5" and la = la and lo = lo] chars_done [where la = la and lo = lo and m = "j div 5"] by simp
  ultimately show ?thesis
    using chars_done [where la = la and lo = lo and m = "j div 5"] by simp
qed

lemma encode_loop_skip:
  "(\<And>j. j < k \<Longrightarrow> int (length (geohash ((encode_body la lo ^^ j) s))) < p) \<Longrightarrow>
     encode_loop la lo p s = encode_loop la lo p ((encode_body la lo ^^ k) s)"
proof (induction k)
  case 0
  then show ?case by simp
next
  case (Suc k)
  have "encode_loop la lo p s = encode_loop la lo p ((encode_body la lo ^^ k) s)"
    using Suc.prems by (intro Suc.IH) simp
  also have "\<dots> = encode_loop la lo p (encode_body la lo ((encode_body la lo ^^ k) s))"
    using Suc.prems [of k] by (subst encode_loop.simps) simp
  finally show ?case by simp
qed

lemma encode_final_steps:
  "encode_final la lo p = Some ((encode_body la lo ^^ (5 * nat p)) encode_init)"
proof -
  let ?k = "5 * nat p"
  have "encode_loop la lo p encode_init =
      encode_loop la lo p ((encode_body la lo ^^ ?k) encode_init)"
  proof (rule encode_loop_skip)
    fix j assume "j < ?k"
    then have "j div 5 < nat p" by simp
    then show "int (length (geohash ((encode_body la lo ^^ j) encode_init))) < p"
      by (simp add: length_after_steps)
  qed
  also have "\<dots> = Some ((encode_body la lo ^^ ?k) encode_init)"
    by (subst encode_loop.simps) (simp add: length_after_steps)
  finally show ?thesis
    by (simp add: encode_final_def)
qed

lemma encodeGeohash_total:
  "\<exists>h. encodeGeohash la lo p = Some h \<and> length h = nat p \<and> set h \<subseteq> set BASE32"
  using chars_done [where la = la and lo = lo and m = "nat p"]
  by (simp add: encodeGeohash_def encode_final_steps)

lemma center_in_box:
  assumes "box_ok s"
  shows "latMin s \<le> (latMin s + latMax s) / 2 \<and> (latMin s + latMax s) / 2 \<le> latMax s \<and>
         lonMin s \<le> (lonMin s + lonMax s) / 2 \<and> (lonMin s + lonMax s) / 2 \<le> lonMax s"
  using assms by (simp add: box_ok_def field_simps)

lemma box_ok_encode_init: "box_ok encode_init"
  by (simp add: box_ok_def encode_init_def)

text \<open>The definitions a concrete call of the encoder is evaluated with.\<close>

lemmas enc_eval = encodeGeohash_def encode_final_def encode_loop.simps encode_init_def
  encode_body_def js_shl_def ToInt32_def charAt_def BASE32_def Let_def

section \<open>The distance claims\<close>

text \<open>
  Claim C1. For every pair of coordinates and in every arithmetic of the numbers,
  \<open>haversineMeters\<close> and its copy \<open>distanceMeters\<close> compute what the formula of
  the specification computes, operation for operation: the differences converted to
  radians, \<open>a\<close> from the two squared sines and the two cosines, \<open>c\<close> as twice the
  atan2 of the two square roots, and 6,371,000 times \<open>c\<close>. Nothing is said about the
  result being a number: where rounding lifts \<open>a\<close> above 1 both sides are NaN.
\<close>

theorem haversine_follows_formula:
  "haversineMeters_num M lat1 lon1 lat2 lon2 = haversine_formula M lat1 lon1 lat2 lon2 \<and>
   distanceMeters_num M lat1 lon1 lat2 lon2 = haversine_formula M lat1 lon1 lat2 lon2"
  by (simp add: haversineMeters_num_def distanceMeters_num_def haversine_formula_def
      toRad_num_def radians_def half_def sin_squared_def)

text \<open>
  Claim C9. The distance from a coordinate of the data model to itself is exactly 0.
\<close>

theorem haversine_same_point:
  assumes "valid_coordinate latitude longitude"
  shows "haversineMeters latitude longitude latitude longitude = Some 0"
  by (simp add: haversineMeters_def toRad_def Math_sqrt_def Math_atan2_def)

theorem haversine_same_point_witness:
  "valid_coordinate (- 33.856784) 151.215297 \<and>
   haversineMeters (- 33.856784) 151.215297 (- 33.856784) 151.215297 = Some 0"
proof -
  have v: "valid_coordinate (- 33.856784) 151.215297"
    by (simp add: valid_coordinate_def)
  show ?thesis
    using v haversine_same_point [OF v] by simp
qed

section \<open>Decoding the empty string\<close>

text \<open>
  Claim C10. \<open>decodeGeohashCenter\<close> on the empty string raises nothing and returns the
  centre of the whole-Earth box, latitude 0 and longitude 0.
\<close>

theorem decode_empty_string:
  "decodeGeohashCenter [] = Inr \<lparr>lat = 0, lon = 0\<rparr>"
  by (simp add: decodeGeohashCenter_def whole_earth_def)

section \<open>The encoder claims\<close>

text \<open>
  Claim C2. For a coordinate of the data model and a precision of at least 1,
  \<open>encodeGeohash\<close> returns a string whose length is the precision and whose
  characters all belong to the 32-symbol alphabet.
\<close>

theorem encode_length_and_alphabet:
  assumes "valid_coordinate latitude longitude" and "1 \<le> precision"
  shows "\<exists>h. encodeGeohash latitude longitude precision = Some h \<and>
             int (length h) = precision \<and> set h \<subseteq> set BASE32"
proof -
  obtain h where "encodeGeohash latitude longitude precision = Some h"
    "length h = nat precision" "set h \<subseteq> set BASE32"
    using encodeGeohash_total by blast
  then show ?thesis
    using assms(2) by auto
qed

theorem encode_length_and_alphabet_witness:
  "valid_coordinate 37.785834 (- 122.406417) \<and> (1::int) \<le> 2 \<and>
   encodeGeohash 37.785834 (- 122.406417) 2 = Some ''9q'' \<and>
   int (length ''9q'') = 2 \<and> set ''9q'' \<subseteq> set BASE32"
proof -
  have v: "valid_coordinate 37.785834 (- 122.406417)"
    by (simp add: valid_coordinate_def)
  have p: "(1::int) \<le> 2" by simp
  have e: "encodeGeohash 37.785834 (- 122.406417) 2 = Some ''9q''"
    by (simp add: enc_eval)
  from encode_length_and_alphabet [OF v p] e v show ?thesis
    by auto
qed

text \<open>
  Claim C3. In a step of the encoder a coordinate equal to the midpoint of the active axis
  takes the branch of bit 0: the upper bound becomes the midpoint, the lower bound stays,
  and \<open>idx\<close> is shifted with no 1 added (the shifted value is what the fifth bit of a
  symbol appends). For latitude 0 and longitude 0 the first step (longitude) and the
  second step (latitude) both meet the midpoint 0 of the whole-Earth box and give bit 0.
\<close>

theorem midpoint_takes_zero_branch:
  "(evenBit s \<and> longitude = (lonMin s + lonMax s) / 2 \<longrightarrow>
      lonMax (encode_body latitude longitude s) = (lonMin s + lonMax s) / 2 \<and>
      lonMin (encode_body latitude longitude s) = lonMin s \<and>
      (if bit s + 1 = 5
       then geohash (encode_body latitude longitude s) =
              geohash s @ charAt BASE32 (js_shl (idx s) 1)
       else idx (encode_body latitude longitude s) = js_shl (idx s) 1)) \<and>
   (\<not> evenBit s \<and> latitude = (latMin s + latMax s) / 2 \<longrightarrow>
      latMax (encode_body latitude longitude s) = (latMin s + latMax s) / 2 \<and>
      latMin (encode_body latitude longitude s) = latMin s \<and>
      (if bit s + 1 = 5
       then geohash (encode_body latitude longitude s) =
              geohash s @ charAt BASE32 (js_shl (idx s) 1)
       else idx (encode_body latitude longitude s) = js_shl (idx s) 1)) \<and>
   idx (encode_body 0 0 encode_init) = 0 \<and>
   lonMin (encode_body 0 0 encode_init) = - 180 \<and>
   lonMax (encode_body 0 0 encode_init) = 0 \<and>
   idx (encode_body 0 0 (encode_body 0 0 encode_init)) = 0 \<and>
   latMin (encode_body 0 0 (encode_body 0 0 encode_init)) = - 90 \<and>
   latMax (encode_body 0 0 (encode_body 0 0 encode_init)) = 0"
proof -
  have lon: "evenBit s \<and> longitude = (lonMin s + lonMax s) / 2 \<longrightarrow>
      lonMax (encode_body latitude longitude s) = (lonMin s + lonMax s) / 2 \<and>
      lonMin (encode_body latitude longitude s) = lonMin s \<and>
      (if bit s + 1 = 5
       then geohash (encode_body latitude longitude s) =
              geohash s @ charAt BASE32 (js_shl (idx s) 1)
       else idx (encode_body latitude longitude s) = js_shl (idx s) 1)"
    by (simp add: encode_body_def Let_def)
  have lat: "\<not> evenBit s \<and> latitude = (latMin s + latMax s) / 2 \<longrightarrow>
      latMax (encode_body latitude longitude s) = (latMin s + latMax s) / 2 \<and>
      latMin (encode_body latitude longitude s) = latMin s \<and>
      (if bit s + 1 = 5
       then geohash (encode_body latitude longitude s) =
              geohash s @ charAt BASE32 (js_shl (idx s) 1)
       else idx (encode_body latitude longitude s) = js_shl (idx s) 1)"
    by (simp add: encode_body_def Let_def)
  have first: "idx (encode_body 0 0 encode_init) = 0 \<and>
      lonMin (encode_body 0 0 encode_init) = - 180 \<and>
      lonMax (encode_body 0 0 encode_init) = 0"
    by (simp add: encode_body_def encode_init_def js_shl_def ToInt32_def Let_def)
  have second: "idx (encode_body 0 0 (encode_body 0 0 encode_init)) = 0 \<and>
      latMin (encode_body 0 0 (encode_body 0 0 encode_init)) = - 90 \<and>
      latMax (encode_body 0 0 (encode_body 0 0 encode_init)) = 0"
    by (simp add: encode_body_def encode_init_def js_shl_def ToInt32_def Let_def)
  from lon lat first second show ?thesis
    by (intro conjI) blast+
qed

theorem midpoint_takes_zero_branch_witness:
  "evenBit (encode_body 45 (- 90) (encode_body 45 (- 90) encode_init)) \<and>
   (- 90 :: real) =
     (lonMin (encode_body 45 (- 90) (encode_body 45 (- 90) encode_init)) +
      lonMax (encode_body 45 (- 90) (encode_body 45 (- 90) encode_init))) / 2 \<and>
   lonMax (encode_body 45 (- 90) (encode_body 45 (- 90) (encode_body 45 (- 90) encode_init))) = - 90 \<and>
   idx (encode_body 45 (- 90) (encode_body 45 (- 90) (encode_body 45 (- 90) encode_init))) = 2 \<and>
   \<not> evenBit (encode_body 45 (- 90) (encode_body 45 (- 90) (encode_body 45 (- 90) encode_init))) \<and>
   (45 :: real) =
     (latMin (encode_body 45 (- 90) (encode_body 45 (- 90) (encode_body 45 (- 90) encode_init))) +
      latMax (encode_body 45 (- 90) (encode_body 45 (- 90) (encode_body 45 (- 90) encode_init)))) / 2 \<and>
   latMax (encode_body 45 (- 90)
     (encode_body 45 (- 90) (encode_body 45 (- 90) (encode_body 45 (- 90) encode_init)))) = 45 \<and>
   idx (encode_body 45 (- 90)
     (encode_body 45 (- 90) (encode_body 45 (- 90) (encode_body 45 (- 90) encode_init)))) = 4"
proof -
  let ?s2 = "encode_body 45 (- 90) (encode_body 45 (- 90) encode_init)"
  let ?s3 = "encode_body 45 (- 90) ?s2"
  have s2: "?s2 = \<lparr>evenBit = True, latMin = 0, latMax = 90, lonMin = - 180, lonMax = 0,
      idx = 1, bit = 2, geohash = []\<rparr>"
    by (simp add: encode_body_def encode_init_def js_shl_def ToInt32_def Let_def)
  have s3: "?s3 = \<lparr>evenBit = False, latMin = 0, latMax = 90, lonMin = - 180, lonMax = - 90,
      idx = 2, bit = 3, geohash = []\<rparr>"
    unfolding s2 by (simp add: encode_body_def js_shl_def ToInt32_def Let_def)
  have h2: "evenBit ?s2 \<and> (- 90 :: real) = (lonMin ?s2 + lonMax ?s2) / 2"
    unfolding s2 by simp
  have h3: "\<not> evenBit ?s3 \<and> (45 :: real) = (latMin ?s3 + latMax ?s3) / 2"
    unfolding s3 by simp
  have sh: "js_shl (idx ?s2) 1 = 2" "js_shl (idx ?s3) 1 = 4" "bit ?s2 + 1 \<noteq> 5" "bit ?s3 + 1 \<noteq> 5"
    unfolding s3 unfolding s2 by (simp_all add: js_shl_def ToInt32_def)
  from midpoint_takes_zero_branch [where s = ?s2 and longitude = "- 90" and latitude = 45] h2 sh
  have r2: "lonMax ?s3 = - 90" "idx ?s3 = 2"
    by simp_all
  from midpoint_takes_zero_branch [where s = ?s3 and longitude = "- 90" and latitude = 45] h3 sh
  have r3: "latMax (encode_body 45 (- 90) ?s3) = 45" "idx (encode_body 45 (- 90) ?s3) = 4"
    by simp_all
  from h2 h3 r2 r3 show ?thesis
    by (intro conjI) blast+
qed

text \<open>
  Claim C4. For a coordinate of the data model and a precision \<open>p\<close> of at least 1 both
  calls return, the result at precision \<open>p\<close> is a prefix of the result at precision
  \<open>p + 1\<close>, and the first \<open>p\<close> characters of the longer result are the shorter one.
\<close>

theorem encode_prefix:
  assumes "valid_coordinate latitude longitude" and "1 \<le> precision"
  shows "\<exists>h h'. encodeGeohash latitude longitude precision = Some h \<and>
                encodeGeohash latitude longitude (precision + 1) = Some h' \<and>
                prefix h h' \<and> take (nat precision) h' = h"
proof -
  let ?s = "(encode_body latitude longitude ^^ (5 * nat precision)) encode_init"
  have n: "nat (precision + 1) = Suc (nat precision)"
    using assms(2) by simp
  have "5 * Suc (nat precision) = 5 + 5 * nat precision" by simp
  then have split: "(encode_body latitude longitude ^^ (5 * nat (precision + 1))) encode_init =
      (encode_body latitude longitude ^^ 5) ?s"
    unfolding n by (simp only: funpow_add comp_apply)
  note inv = chars_done [where la = latitude and lo = longitude and m = "nat precision"]
  then have "bit ?s = 0" "idx ?s = 0" by simp_all
  from char_step [OF this, of latitude longitude] obtain v where
    g: "geohash ((encode_body latitude longitude ^^ 5) ?s) = geohash ?s @ [BASE32 ! nat v]"
    by blast
  have "encodeGeohash latitude longitude precision = Some (geohash ?s)"
    by (simp add: encodeGeohash_def encode_final_steps)
  moreover have "encodeGeohash latitude longitude (precision + 1) =
      Some (geohash ?s @ [BASE32 ! nat v])"
    by (simp only: encodeGeohash_def encode_final_steps split g option.map)
  moreover have "take (nat precision) (geohash ?s @ [BASE32 ! nat v]) = geohash ?s"
    using inv by simp
  ultimately show ?thesis
    by (intro exI [of _ "geohash ?s"] exI [of _ "geohash ?s @ [BASE32 ! nat v]"]) simp
qed

theorem encode_prefix_witness:
  "valid_coordinate 37.785834 (- 122.406417) \<and> (1::int) \<le> 1 \<and>
   encodeGeohash 37.785834 (- 122.406417) 1 = Some ''9'' \<and>
   encodeGeohash 37.785834 (- 122.406417) (1 + 1) = Some ''9q'' \<and>
   prefix ''9'' ''9q'' \<and> take (nat 1) ''9q'' = ''9''"
proof -
  have v: "valid_coordinate 37.785834 (- 122.406417)"
    by (simp add: valid_coordinate_def)
  have p: "(1::int) \<le> 1" by simp
  have e: "encodeGeohash 37.785834 (- 122.406417) 1 = Some ''9''"
    "encodeGeohash 37.785834 (- 122.406417) (1 + 1) = Some ''9q''"
    by (simp_all add: enc_eval)
  from encode_prefix [OF v p] e v show ?thesis
    by auto
qed

text \<open>
  Claim C5. Let a coordinate be encoded at a precision of at least 1, and take any
  coordinate with the same hash at that precision (the encoded coordinate itself is one).
  Decoding the hash succeeds, and the decoded point lies between the final latitude
  bounds and between the final longitude bounds that the encoder reaches for that
  coordinate.
\<close>

theorem decoded_center_in_cell:
  assumes "valid_coordinate latitude longitude" and "1 \<le> precision"
    and "valid_coordinate latitude' longitude'"
    and "encodeGeohash latitude' longitude' precision = encodeGeohash latitude longitude precision"
  shows "\<exists>h st' c. encodeGeohash latitude longitude precision = Some h \<and>
           decodeGeohashCenter h = Inr c \<and>
           encode_final latitude' longitude' precision = Some st' \<and>
           latMin st' \<le> lat c \<and> lat c \<le> latMax st' \<and>
           lonMin st' \<le> lon c \<and> lon c \<le> lonMax st'"
proof -
  let ?st = "(encode_body latitude longitude ^^ (5 * nat precision)) encode_init"
  let ?st' = "(encode_body latitude' longitude' ^^ (5 * nat precision)) encode_init"
  let ?c = "\<lparr>lat = (latMin ?st' + latMax ?st') / 2, lon = (lonMin ?st' + lonMax ?st') / 2\<rparr>"
  have e: "encodeGeohash latitude longitude precision = Some (geohash ?st)"
    by (simp add: encodeGeohash_def encode_final_steps)
  have "encodeGeohash latitude' longitude' precision = Some (geohash ?st')"
    by (simp add: encodeGeohash_def encode_final_steps)
  with assms(4) e have same: "geohash ?st = geohash ?st'"
    by simp
  have "decode_chars (geohash ?st') whole_earth = Inr (cursor.truncate ?st')"
    using chars_done [where la = latitude' and lo = longitude' and m = "nat precision"] by simp
  then have d: "decodeGeohashCenter (geohash ?st) = Inr ?c"
    by (simp add: decodeGeohashCenter_def same)
  have "box_ok ?st'"
    by (rule box_ok_steps) (rule box_ok_encode_init)
  from center_in_box [OF this] have
    "latMin ?st' \<le> lat ?c \<and> lat ?c \<le> latMax ?st' \<and> lonMin ?st' \<le> lon ?c \<and> lon ?c \<le> lonMax ?st'"
    by simp
  with e d show ?thesis
    by (intro exI [of _ "geohash ?st"] exI [of _ ?st'] exI [of _ ?c])
      (simp add: encode_final_steps)
qed

theorem decoded_center_in_cell_witness:
  "valid_coordinate 0 0 \<and> (1::int) \<le> 1 \<and> valid_coordinate (- 1) (- 1) \<and>
   encodeGeohash (- 1) (- 1) 1 = encodeGeohash 0 0 1 \<and>
   (\<exists>h st' c. encodeGeohash 0 0 1 = Some h \<and>
      decodeGeohashCenter h = Inr c \<and>
      encode_final (- 1) (- 1) 1 = Some st' \<and>
      latMin st' \<le> lat c \<and> lat c \<le> latMax st' \<and>
      lonMin st' \<le> lon c \<and> lon c \<le> lonMax st')"
proof -
  have v: "valid_coordinate 0 0" "valid_coordinate (- 1) (- 1)"
    by (simp_all add: valid_coordinate_def)
  have p: "(1::int) \<le> 1" by simp
  have e: "encodeGeohash (- 1) (- 1) 1 = encodeGeohash 0 0 1"
    by (simp add: enc_eval)
  from decoded_center_in_cell [OF v(1) p v(2) e] v p e show ?thesis
    by (intro conjI)
qed

section \<open>The error claims\<close>

text \<open>
  Claim C6, as amended. \<open>encodeGeohash\<close> has no check of its arguments and signals
  nothing: for every latitude, longitude and precision it returns a string over the
  alphabet, of length the precision when that is positive and empty otherwise.
\<close>

theorem encode_without_validation:
  "\<exists>h. encodeGeohash latitude longitude precision = Some h \<and>
       length h = nat precision \<and> set h \<subseteq> set BASE32"
  by (rule encodeGeohash_total)

text \<open>
  Claim C6 as stated fails: latitude 91, longitude 200, precision 0 and precision -3
  each give an ordinary result instead of an error.
\<close>

theorem encode_validation_counterexample:
  "encodeGeohash 91 0 1 = Some ''g'' \<and> encodeGeohash 0 200 1 = Some ''r'' \<and>
   encodeGeohash 0 0 0 = Some [] \<and> encodeGeohash 0 0 (- 3) = Some []"
  by (simp add: enc_eval)

text \<open>
  Claim C7, as amended. When the string has a character outside the alphabet,
  \<open>decodeGeohashCenter\<close> throws at the first such character an error whose message
  names that character (and nothing else); when all characters are in the alphabet it
  returns a centre.
\<close>

theorem decode_first_invalid_character:
  "case find (\<lambda>ch. ch \<notin> set BASE32) hash of
     Some ch \<Rightarrow>
       decodeGeohashCenter hash = Inl (Error (''Invalid geohash character: '' @ [ch]))
   | None \<Rightarrow> \<exists>c. decodeGeohashCenter hash = Inr c"
  using decode_chars_find [of hash whole_earth]
  by (auto simp: decodeGeohashCenter_def split: option.splits)

text \<open>
  Claim C7 as stated fails where it says the error identifies the position: the
  offending character at index 0 and at index 1 give the same error.
\<close>

theorem decode_error_position_counterexample:
  "decodeGeohashCenter ''a0'' = Inl (Error ''Invalid geohash character: a'') \<and>
   decodeGeohashCenter ''0a'' = Inl (Error ''Invalid geohash character: a'')"
  by (simp add: decodeGeohashCenter_def CHAR_MAP_def BASE32_def)

end
